theory Spec2Isabelle
  imports Main
begin

section \<open>The root controller of the video-call demo (RootScreen)\<close>

text \<open>
  The component \<open>RootScreen\<close> keeps four pieces of React state (\<open>appState\<close>,
  \<open>roomUrl\<close>, \<open>callObject\<close>, \<open>apiError\<close>), calls the room API and the vendor
  call object, and reacts to the events the call object emits. The embedding below
  makes the state, the calls made to the outside and the promises still pending
  explicit: every callback of the component is a function on a \<open>world\<close>, and one
  turn of the browser's event loop is one \<open>step\<close>.
\<close>

subsection \<open>Values\<close>

text \<open>
  A JavaScript value that is used as a URL: a string, \<open>null\<close> or \<open>undefined\<close>.
  \<open>truthy\<close> is the test \<open>if (v)\<close>: the empty string, \<open>null\<close> and \<open>undefined\<close>
  are falsy.
\<close>

datatype jsval = Undefined | Null | Str string

fun truthy :: "jsval \<Rightarrow> bool" where
  "truthy (Str s) = (s \<noteq> [])"
| "truthy Undefined = False"
| "truthy Null = False"

text \<open>A call object of the vendor SDK is a handle; \<open>None\<close> is \<open>null\<close>.\<close>

type_synonym call_id = nat

datatype error = TypeError

text \<open>A method call on a reference that may be \<open>null\<close> throws on \<open>null\<close>.\<close>

fun deref :: "call_id option \<Rightarrow> error + call_id" where
  "deref None = Inl TypeError"
| "deref (Some c) = Inr c"

text \<open>
  Modelled from the spec: the module \<open>modules/constants\<close> is not among the sources;
  the seven state constants are modelled as the seven names the specification
  enumerates. The controller only compares them with \<open>===\<close>.
\<close>

definition STATE_IDLE :: string where "STATE_IDLE = ''idle''"
definition STATE_CREATING :: string where "STATE_CREATING = ''creating''"
definition STATE_HAIRCHECK :: string where "STATE_HAIRCHECK = ''hair-check''"
definition STATE_JOINING :: string where "STATE_JOINING = ''joining''"
definition STATE_JOINED :: string where "STATE_JOINED = ''joined''"
definition STATE_LEAVING :: string where "STATE_LEAVING = ''leaving''"
definition STATE_ERROR :: string where "STATE_ERROR = ''error''"

definition STATES :: "string list" where
  "STATES = [STATE_IDLE, STATE_CREATING, STATE_HAIRCHECK, STATE_JOINING, STATE_JOINED,
             STATE_LEAVING, STATE_ERROR]"

text \<open>The four vendor events of the subscription effect, in the order of the source.\<close>

definition events :: "string list" where
  "events = [''joined-meeting'', ''left-meeting'', ''error'', ''camera-error'']"

text \<open>Calls made to the room API, the vendor SDK and the console, in the order made.\<close>

datatype effect =
    CreateRoom
  | ConsoleError
  | CreateCallObject call_id
  | PreAuth call_id jsval
  | StartCamera call_id
  | Join call_id jsval
  | Leave call_id
  | Destroy call_id
  | On call_id string
  | Off call_id string

text \<open>Promises that are pending, each with the continuation the source attaches.\<close>

datatype promise =
    AwaitCreateRoom
  | AwaitPreAuth call_id
  | AwaitStartCamera call_id
  | AwaitDestroy call_id

text \<open>What \<open>renderApp\<close> returns.\<close>

datatype view = ApiErrorView | HairCheckView | CallView | HomeScreen

text \<open>
  The helpers of \<open>modules/utils\<close> are not among the sources; they are parameters.
  Both read \<open>window.location\<close>, so they take the page address.
\<close>

record utils =
  roomUrlFromPageUrl :: "string \<Rightarrow> jsval"
  pageUrlFromRoomUrl :: "string \<Rightarrow> jsval \<Rightarrow> string"

record world =
  appState :: string
  roomUrl :: jsval
  callObject :: "call_id option"
  apiError :: bool
  href :: string
  history :: "string list"
  effects :: "effect list"
  pending :: "promise list"
  handlers :: "(call_id \<times> string) list"
  meetingState :: "call_id \<Rightarrow> string"
  next_id :: call_id
  mounted :: bool

text \<open>
  \<open>href\<close> is \<open>window.location.href\<close> and \<open>history\<close> lists the addresses passed to
  \<open>history.replaceState\<close>. \<open>handlers\<close> lists the (call object, event) pairs that
  \<open>handleNewMeetingState\<close> is registered for. \<open>meetingState w c\<close> is what the
  accessor \<open>meetingState()\<close> of call object \<open>c\<close> returns; only the vendor changes it.
  \<open>next_id\<close> is the handle \<open>createCallObject\<close> returns next.
\<close>

text \<open>The values of the four \<open>useState\<close> hooks at the first render.\<close>

definition initial_world :: "string \<Rightarrow> (call_id \<Rightarrow> string) \<Rightarrow> world" where
  "initial_world h ms =
     \<lparr>appState = STATE_IDLE, roomUrl = Null, callObject = None, apiError = False,
      href = h, history = [], effects = [], pending = [], handlers = [],
      meetingState = ms, next_id = 0, mounted = True\<rparr>"

subsection \<open>The callbacks of the controller\<close>

text \<open>
  \<open>createCall\<close>: the state becomes creating and the request is sent. The promise
  chain of the source settles later, see \<open>createCall_settle\<close>.
\<close>

definition createCall :: "world \<Rightarrow> world" where
  "createCall w =
     w\<lparr>appState := STATE_CREATING,
       effects := effects w @ [CreateRoom],
       pending := pending w @ [AwaitCreateRoom]\<rparr>"

text \<open>
  How \<open>api.createRoom()\<close> settles: fulfilled with an object whose \<open>url\<close> field
  holds the given value, fulfilled with \<open>null\<close> or \<open>undefined\<close>, or rejected.
\<close>

datatype api_result = RoomCreated jsval | RoomNullish | RequestFailed

datatype 'a settled = Fulfilled 'a | Rejected

text \<open>\<open>.then((room) => room.url)\<close>: reading \<open>url\<close> of \<open>null\<close> or \<open>undefined\<close> throws.\<close>

fun createCall_then :: "api_result \<Rightarrow> jsval settled" where
  "createCall_then (RoomCreated u) = Fulfilled u"
| "createCall_then RoomNullish = Rejected"
| "createCall_then RequestFailed = Rejected"

text \<open>The callback of \<open>.catch\<close>.\<close>

definition createCall_catch :: "world \<Rightarrow> world" where
  "createCall_catch w =
     w\<lparr>effects := effects w @ [ConsoleError],
       roomUrl := Null,
       appState := STATE_IDLE,
       apiError := True\<rparr>"

text \<open>
  The promise \<open>createCall\<close> returns: the value of the \<open>then\<close> callback, or, when the
  chain was rejected, the value of the \<open>catch\<close> callback, which returns nothing.
\<close>

definition createCall_settle :: "api_result \<Rightarrow> world \<Rightarrow> jsval settled \<times> world" where
  "createCall_settle r w =
     (case createCall_then r of
        Fulfilled u \<Rightarrow> (Fulfilled u, w)
      | Rejected \<Rightarrow> (Fulfilled Undefined, createCall_catch w))"

text \<open>
  \<open>startHairCheck\<close> up to its first \<open>await\<close>: the call object is created, the three
  setters run and \<open>preAuth\<close> is called.
\<close>

definition startHairCheck :: "jsval \<Rightarrow> world \<Rightarrow> world" where
  "startHairCheck url w =
     (let newCallObject = next_id w in
      w\<lparr>next_id := Suc newCallObject,
        roomUrl := url,
        callObject := Some newCallObject,
        appState := STATE_HAIRCHECK,
        effects := effects w @ [CreateCallObject newCallObject, PreAuth newCallObject url],
        pending := pending w @ [AwaitPreAuth newCallObject]\<rparr>)"

text \<open>The rest of \<open>startHairCheck\<close>, after \<open>preAuth\<close> is fulfilled.\<close>

definition startHairCheck_resume :: "call_id \<Rightarrow> world \<Rightarrow> world" where
  "startHairCheck_resume c w =
     w\<lparr>effects := effects w @ [StartCamera c],
       pending := pending w @ [AwaitStartCamera c]\<rparr>"

text \<open>\<open>startDemo\<close> of the home screen: \<open>createCall().then((url) => startHairCheck(url))\<close>.\<close>

fun startDemo_then :: "jsval settled \<Rightarrow> world \<Rightarrow> world" where
  "startDemo_then (Fulfilled url) w = startHairCheck url w"
| "startDemo_then Rejected w = w"

definition joinCall :: "world \<Rightarrow> error + world" where
  "joinCall w =
     (if callObject w \<noteq> None \<and> truthy (roomUrl w) then
        (case deref (callObject w) of
           Inl e \<Rightarrow> Inl e
         | Inr c \<Rightarrow> Inr (w\<lparr>effects := effects w @ [Join c (roomUrl w)]\<rparr>))
      else Inr w)"

text \<open>\<open>x.destroy().then(...)\<close>: the call, and the pending promise with its continuation.\<close>

definition destroy_then :: "call_id option \<Rightarrow> world \<Rightarrow> error + world" where
  "destroy_then co w =
     (case deref co of
        Inl e \<Rightarrow> Inl e
      | Inr c \<Rightarrow> Inr (w\<lparr>effects := effects w @ [Destroy c],
                        pending := pending w @ [AwaitDestroy c]\<rparr>))"

text \<open>The continuation of both \<open>destroy().then\<close> in the source.\<close>

definition cleanup :: "world \<Rightarrow> world" where
  "cleanup w = w\<lparr>roomUrl := Null, callObject := None, appState := STATE_IDLE\<rparr>"

definition startLeavingCall :: "world \<Rightarrow> error + world" where
  "startLeavingCall w =
     (if callObject w = None then Inr w
      else if appState w = STATE_ERROR then destroy_then (callObject w) w
      else
        (case deref (callObject w) of
           Inl e \<Rightarrow> Inl e
         | Inr c \<Rightarrow> Inr (w\<lparr>appState := STATE_LEAVING, effects := effects w @ [Leave c]\<rparr>)))"

text \<open>
  \<open>handleNewMeetingState\<close>. The function is a closure: \<open>co\<close> is the \<open>callObject\<close> of
  the render that made it.
\<close>

definition handleNewMeetingState :: "call_id option \<Rightarrow> world \<Rightarrow> error + world" where
  "handleNewMeetingState co w =
     (if co \<noteq> None then
        (case deref co of
           Inl e \<Rightarrow> Inl e
         | Inr c \<Rightarrow>
             (let s = meetingState w c in
              if s = ''joined-meeting'' then Inr (w\<lparr>appState := STATE_JOINED\<rparr>)
              else if s = ''left-meeting'' then destroy_then co w
              else if s = ''error'' then Inr (w\<lparr>appState := STATE_ERROR\<rparr>)
              else Inr w))
      else Inr w)"

text \<open>An exception that leaves a callback ends the callback.\<close>

fun uncaught :: "world \<Rightarrow> error + world \<Rightarrow> world" where
  "uncaught w (Inl e) = w"
| "uncaught w (Inr w') = w'"

subsection \<open>Rendering and effects\<close>

definition showCall :: "world \<Rightarrow> bool" where
  "showCall w = (\<not> apiError w \<and> appState w \<in> set [STATE_JOINING, STATE_JOINED, STATE_ERROR])"

definition showHairCheck :: "world \<Rightarrow> bool" where
  "showHairCheck w = (\<not> apiError w \<and> appState w = STATE_HAIRCHECK)"

definition renderApp :: "world \<Rightarrow> view" where
  "renderApp w =
     (if apiError w then ApiErrorView
      else if showHairCheck w \<and> callObject w \<noteq> None then HairCheckView
      else if showCall w \<and> callObject w \<noteq> None then CallView
      else HomeScreen)"

text \<open>The mount effect, run once after the first render.\<close>

definition mount_effect :: "utils \<Rightarrow> world \<Rightarrow> world" where
  "mount_effect u w =
     (let url = roomUrlFromPageUrl u (href w) in
      if truthy url then startHairCheck url w else w)"

text \<open>The effect on \<open>roomUrl\<close>; \<open>r\<close> is the \<open>roomUrl\<close> of the render that made it.\<close>

definition roomUrl_effect :: "utils \<Rightarrow> jsval \<Rightarrow> world \<Rightarrow> world" where
  "roomUrl_effect u r w =
     (let pageUrl = pageUrlFromRoomUrl u (href w) r in
      if pageUrl = href w then w
      else w\<lparr>href := pageUrl, history := history w @ [pageUrl]\<rparr>)"

text \<open>
  The effect on \<open>callObject\<close> and its cleanup; \<open>co\<close> is the \<open>callObject\<close> of the
  render that made them. \<open>off\<close> removes one registration of the handler.
\<close>

definition callObject_effect :: "call_id option \<Rightarrow> world \<Rightarrow> world" where
  "callObject_effect co w =
     (case co of
        None \<Rightarrow> w
      | Some c \<Rightarrow>
          (case handleNewMeetingState co w of
             Inl e \<Rightarrow> w
           | Inr w' \<Rightarrow>
               w'\<lparr>effects := effects w' @ map (On c) events,
                  handlers := handlers w' @ map (Pair c) events\<rparr>))"

definition callObject_cleanup :: "call_id option \<Rightarrow> world \<Rightarrow> world" where
  "callObject_cleanup co w =
     (case co of
        None \<Rightarrow> w
      | Some c \<Rightarrow>
          w\<lparr>effects := effects w @ map (Off c) events,
            handlers := fold remove1 (map (Pair c) events) (handlers w)\<rparr>)"

text \<open>
  The render after a turn of the event loop, with the effects whose dependency
  changed: \<open>old\<close> is the world of the previous render. React runs the cleanups of
  the changed effects first, then their bodies in the order of the source.
\<close>

definition commit :: "utils \<Rightarrow> world \<Rightarrow> world \<Rightarrow> world" where
  "commit u old w =
     (let w1 = (if callObject w \<noteq> callObject old then callObject_cleanup (callObject old) w
                else w);
          w2 = (if roomUrl w \<noteq> roomUrl old then roomUrl_effect u (roomUrl w) w1 else w1)
      in if callObject w \<noteq> callObject old then callObject_effect (callObject w) w2 else w2)"

text \<open>
  Mounting: the first render shows \<open>initial_world\<close>; then the three effects run in
  the order of the source, with the values of the first render (\<open>roomUrl\<close> and
  \<open>callObject\<close> are \<open>null\<close> there); then the component renders again.
\<close>

definition mount_effects :: "utils \<Rightarrow> world \<Rightarrow> world" where
  "mount_effects u w0 =
     callObject_effect (callObject w0) (roomUrl_effect u (roomUrl w0) (mount_effect u w0))"

definition mount :: "utils \<Rightarrow> string \<Rightarrow> (call_id \<Rightarrow> string) \<Rightarrow> world" where
  "mount u h ms = commit u (initial_world h ms) (mount_effects u (initial_world h ms))"

text \<open>The values of the four \<open>useState\<close> hooks: a render shows these.\<close>

definition react_state :: "world \<Rightarrow> string \<times> jsval \<times> call_id option \<times> bool" where
  "react_state w = (appState w, roomUrl w, callObject w, apiError w)"

text \<open>
  The worlds rendered while mounting, in order. The first render shows
  \<open>initial_world\<close>. If its effects changed the state, the component renders again,
  showing the world those effects left. The effects of that second render run
  after it (\<open>mount\<close> is the world they leave), and if they changed the state, which
  only the first call of \<open>handleNewMeetingState\<close> in the subscription effect can
  do, the component renders a third time.
\<close>

definition mount_renders :: "utils \<Rightarrow> string \<Rightarrow> (call_id \<Rightarrow> string) \<Rightarrow> world list" where
  "mount_renders u h ms =
     (let w0 = initial_world h ms;
          w1 = mount_effects u w0;
          w2 = commit u w0 w1
      in w0 # (if react_state w1 \<noteq> react_state w0 then [w1] else [])
            @ (if react_state w2 \<noteq> react_state w1 then [w2] else []))"

subsection \<open>The event loop\<close>

text \<open>
  What can happen to the mounted component: the user presses a button of the view
  that is rendered, a pending promise settles, or the vendor emits an event on a
  call object, whose accessor \<open>meetingState()\<close> then returns the given state.
  The components \<open>HairCheck\<close> and \<open>Tray\<close> are not among the sources: pressing
  one of their buttons is a call of the callback that \<open>renderApp\<close> hands them
  (\<open>joinCall\<close>, \<open>cancelCall\<close>, \<open>leaveCall\<close>). A vendor event carries the call
  object, the name of the event, its payload and the meeting state.
\<close>

datatype event =
    ClickStart
  | ClickJoin
  | ClickCancel
  | ClickLeave
  | CreateRoomSettled api_result
  | PreAuthSettled call_id bool
  | StartCameraSettled call_id
  | DestroySettled call_id bool
  | VendorEvent call_id string string string
  | Unmount

text \<open>A registered handler: the payload of the event is passed and not read.\<close>

definition handler :: "call_id \<Rightarrow> string \<Rightarrow> world \<Rightarrow> world" where
  "handler c payload w = uncaught w (handleNewMeetingState (Some c) w)"

definition emit :: "call_id \<Rightarrow> string \<Rightarrow> string \<Rightarrow> world \<Rightarrow> world" where
  "emit c ev payload w =
     fold (\<lambda>h. handler (fst h) payload) (filter (\<lambda>h. h = (c, ev)) (handlers w)) w"

definition settle :: "promise \<Rightarrow> (world \<Rightarrow> world) \<Rightarrow> world \<Rightarrow> world" where
  "settle t k w =
     (if t \<in> set (pending w) then k (w\<lparr>pending := remove1 t (pending w)\<rparr>) else w)"

fun handle :: "event \<Rightarrow> world \<Rightarrow> world" where
  "handle ClickStart w =
     (if renderApp w = HomeScreen then createCall w else w)"
| "handle (CreateRoomSettled r) w =
     settle AwaitCreateRoom (\<lambda>w'. case createCall_settle r w' of (p, w'') \<Rightarrow> startDemo_then p w'') w"
| "handle ClickJoin w =
     (if renderApp w = HairCheckView then uncaught w (joinCall w) else w)"
| "handle ClickCancel w =
     (if renderApp w = HairCheckView then uncaught w (startLeavingCall w) else w)"
| "handle ClickLeave w =
     (if renderApp w = CallView then uncaught w (startLeavingCall w) else w)"
| "handle (PreAuthSettled c ok) w =
     settle (AwaitPreAuth c) (\<lambda>w'. if ok then startHairCheck_resume c w' else w') w"
| "handle (StartCameraSettled c) w =
     settle (AwaitStartCamera c) (\<lambda>w'. w') w"
| "handle (DestroySettled c ok) w =
     settle (AwaitDestroy c) (\<lambda>w'. if ok then cleanup w' else w') w"
| "handle (VendorEvent c ev payload s) w =
     emit c ev payload (w\<lparr>meetingState := (meetingState w)(c := s)\<rparr>)"
| "handle Unmount w =
     (callObject_cleanup (callObject w) w)\<lparr>mounted := False\<rparr>"

text \<open>The events that need a rendered view: the four buttons.\<close>

fun user_event :: "event \<Rightarrow> bool" where
  "user_event ClickStart = True"
| "user_event ClickJoin = True"
| "user_event ClickCancel = True"
| "user_event ClickLeave = True"
| "user_event e = False"

text \<open>
  React drops the state updates of a component that is unmounted: of the world
  \<open>w'\<close> a callback leaves, the four state values stay those of \<open>w\<close>.
\<close>

definition discard_updates :: "world \<Rightarrow> world \<Rightarrow> world" where
  "discard_updates w w' =
     w'\<lparr>appState := appState w, roomUrl := roomUrl w, callObject := callObject w,
        apiError := apiError w\<rparr>"

text \<open>
  One turn of the event loop. While the component is mounted the callback runs,
  with the promise callbacks chained behind it, then the component renders once
  with the state the setters left and its effects run. After the unmount nothing
  is rendered and no button is left to press, but promises that were pending
  still settle and their callbacks still run and call the SDK; only their state
  updates are dropped. The vendor may still emit events; no handler is registered
  for them any more.
\<close>

definition step :: "utils \<Rightarrow> world \<Rightarrow> event \<Rightarrow> world" where
  "step u w e =
     (if mounted w then
        (if e = Unmount then handle e w else commit u w (handle e w))
      else if user_event e \<or> e = Unmount then w
      else discard_updates w (handle e w))"

definition run :: "utils \<Rightarrow> world \<Rightarrow> event list \<Rightarrow> world" where
  "run u w es = foldl (step u) w es"

inductive reachable :: "utils \<Rightarrow> world \<Rightarrow> bool" for u :: utils where
  reach_mount: "reachable u (mount u h ms)"
| reach_step: "reachable u w \<Longrightarrow> reachable u (step u w e)"

subsection \<open>Notions used to state the properties\<close>

text \<open>
  The registrations the subscription effect keeps for a call object: the handler,
  once for each of the four events; none for \<open>null\<close>.
\<close>

definition subscriptions :: "call_id option \<Rightarrow> (call_id \<times> string) list" where
  "subscriptions co = (case co of None \<Rightarrow> [] | Some c \<Rightarrow> map (Pair c) events)"

definition subscribed :: "world \<Rightarrow> bool" where
  "subscribed w = (handlers w = (if mounted w then subscriptions (callObject w) else []))"

text \<open>
  Every call object created so far has a handle below the one \<open>createCallObject\<close>
  returns next.
\<close>

definition created_before :: "world \<Rightarrow> bool" where
  "created_before w =
     list_all (\<lambda>x. case x of CreateCallObject c \<Rightarrow> c < next_id w | _ \<Rightarrow> True) (effects w)"

text \<open>
  Concrete inputs for the examples: helpers that encode the room as the query
  \<open>roomUrl\<close> of the page \<open>app\<close>, and a vendor whose call objects report the
  meeting state \<open>new\<close>.
\<close>

definition example_utils :: utils where
  "example_utils =
     \<lparr>roomUrlFromPageUrl = (\<lambda>h. if h = ''app?roomUrl=r'' then Str ''r'' else Null),
      pageUrlFromRoomUrl = (\<lambda>h r. case r of Str s \<Rightarrow> ''app?roomUrl='' @ s | _ \<Rightarrow> ''app'')\<rparr>"

definition new_meeting :: "call_id \<Rightarrow> string" where
  "new_meeting c = ''new''"

text \<open>A vendor whose call objects report \<open>joined-meeting\<close> from the start.\<close>

definition joined_meeting :: "call_id \<Rightarrow> string" where
  "joined_meeting c = ''joined-meeting''"

text \<open>The component mounted on the plain page, and on a page that names the room \<open>r\<close>.\<close>

definition home_world :: world where
  "home_world = mount example_utils ''app'' new_meeting"

definition linked_world :: world where
  "linked_world = mount example_utils ''app?roomUrl=r'' new_meeting"

text \<open>The linked component after the vendor reported the meeting state \<open>error\<close>.\<close>

definition broken_world :: world where
  "broken_world = step example_utils linked_world (VendorEvent 0 ''error'' [] ''error'')"

text \<open>The home screen after the start button was pressed: the request is pending.\<close>

definition creating_world :: world where
  "creating_world = step example_utils home_world ClickStart"

text \<open>
  A call is started and cancelled; its \<open>destroy()\<close> is still pending when the user,
  back on the home screen, starts a second call and the second room arrives.
\<close>

definition stale_cleanup_trace :: "event list" where
  "stale_cleanup_trace =
     [ClickStart, CreateRoomSettled (RoomCreated (Str ''u'')), ClickCancel,
      VendorEvent 0 ''left-meeting'' [] ''left-meeting'',
      ClickStart, CreateRoomSettled (RoomCreated (Str ''v''))]"

definition second_call_world :: world where
  "second_call_world = run example_utils home_world stale_cleanup_trace"

section \<open>Properties\<close>

subsection \<open>Basic facts\<close>

lemmas STATE_defs = STATE_IDLE_def STATE_CREATING_def STATE_HAIRCHECK_def STATE_JOINING_def
  STATE_JOINED_def STATE_LEAVING_def STATE_ERROR_def

lemma distinct_STATES: "distinct STATES"
  by (simp add: STATES_def STATE_defs)

lemma STATE_neq [simp]:
  "STATE_IDLE \<noteq> STATE_ERROR" "STATE_LEAVING \<noteq> STATE_ERROR" "STATE_LEAVING \<noteq> STATE_IDLE"
  "STATE_HAIRCHECK \<noteq> STATE_IDLE" "STATE_HAIRCHECK \<noteq> STATE_ERROR"
  "STATE_HAIRCHECK \<noteq> STATE_JOINING" "STATE_HAIRCHECK \<noteq> STATE_JOINED"
  "STATE_JOINED \<noteq> STATE_ERROR" "STATE_JOINED \<noteq> STATE_IDLE"
  "STATE_CREATING \<noteq> STATE_ERROR" "STATE_CREATING \<noteq> STATE_IDLE"
  by (simp_all add: STATE_defs)

lemma STATES_mem [simp]:
  "STATE_IDLE \<in> set STATES" "STATE_CREATING \<in> set STATES" "STATE_HAIRCHECK \<in> set STATES"
  "STATE_JOINING \<in> set STATES" "STATE_JOINED \<in> set STATES" "STATE_LEAVING \<in> set STATES"
  "STATE_ERROR \<in> set STATES"
  by (simp_all add: STATES_def)

text \<open>With a call object at hand no callback throws; what each of them does then.\<close>

lemma handleNewMeetingState_Some:
  "handleNewMeetingState (Some c) w =
     Inr (if meetingState w c = ''joined-meeting'' then w\<lparr>appState := STATE_JOINED\<rparr>
          else if meetingState w c = ''left-meeting''
            then w\<lparr>effects := effects w @ [Destroy c], pending := pending w @ [AwaitDestroy c]\<rparr>
          else if meetingState w c = ''error'' then w\<lparr>appState := STATE_ERROR\<rparr>
          else w)"
  by (simp add: handleNewMeetingState_def destroy_then_def Let_def)

lemma handler_eq:
  "handler c payload w =
     (if meetingState w c = ''joined-meeting'' then w\<lparr>appState := STATE_JOINED\<rparr>
      else if meetingState w c = ''left-meeting''
        then w\<lparr>effects := effects w @ [Destroy c], pending := pending w @ [AwaitDestroy c]\<rparr>
      else if meetingState w c = ''error'' then w\<lparr>appState := STATE_ERROR\<rparr>
      else w)"
  by (simp add: handler_def handleNewMeetingState_Some)

lemma startLeavingCall_Some:
  "callObject w = Some c \<Longrightarrow>
   startLeavingCall w =
     Inr (if appState w = STATE_ERROR
          then w\<lparr>effects := effects w @ [Destroy c], pending := pending w @ [AwaitDestroy c]\<rparr>
          else w\<lparr>appState := STATE_LEAVING, effects := effects w @ [Leave c]\<rparr>)"
  by (simp add: startLeavingCall_def destroy_then_def)

lemma uncaught_joinCall:
  "uncaught w (joinCall w) =
     (case callObject w of None \<Rightarrow> w
      | Some c \<Rightarrow> if truthy (roomUrl w) then w\<lparr>effects := effects w @ [Join c (roomUrl w)]\<rparr> else w)"
  by (simp add: joinCall_def split: option.splits)

lemma uncaught_startLeavingCall:
  "uncaught w (startLeavingCall w) =
     (case callObject w of None \<Rightarrow> w
      | Some c \<Rightarrow> if appState w = STATE_ERROR
          then w\<lparr>effects := effects w @ [Destroy c], pending := pending w @ [AwaitDestroy c]\<rparr>
          else w\<lparr>appState := STATE_LEAVING, effects := effects w @ [Leave c]\<rparr>)"
  by (cases "callObject w") (simp_all add: startLeavingCall_Some, simp add: startLeavingCall_def)

lemmas callback_defs = createCall_def settle_def createCall_settle_def createCall_catch_def
  startHairCheck_def startHairCheck_resume_def cleanup_def uncaught_joinCall
  uncaught_startLeavingCall Let_def

subsection \<open>What the effects and the handlers leave alone\<close>

lemma frame_callObject_cleanup [simp]:
  "href (callObject_cleanup co w) = href w" "history (callObject_cleanup co w) = history w"
  "roomUrl (callObject_cleanup co w) = roomUrl w" "apiError (callObject_cleanup co w) = apiError w"
  "appState (callObject_cleanup co w) = appState w"
  "callObject (callObject_cleanup co w) = callObject w"
  "mounted (callObject_cleanup co w) = mounted w"
  by (simp_all add: callObject_cleanup_def split: option.splits)

lemma frame_handler [simp]:
  "href (handler c p w) = href w" "history (handler c p w) = history w"
  "roomUrl (handler c p w) = roomUrl w" "apiError (handler c p w) = apiError w"
  "callObject (handler c p w) = callObject w" "handlers (handler c p w) = handlers w"
  "mounted (handler c p w) = mounted w"
  by (simp_all add: handler_eq)

lemma frame_callObject_effect [simp]:
  "href (callObject_effect co w) = href w" "history (callObject_effect co w) = history w"
  "roomUrl (callObject_effect co w) = roomUrl w" "apiError (callObject_effect co w) = apiError w"
  "callObject (callObject_effect co w) = callObject w"
  "mounted (callObject_effect co w) = mounted w"
  by (simp_all add: callObject_effect_def handleNewMeetingState_Some split: option.splits)

lemma frame_roomUrl_effect [simp]:
  "roomUrl (roomUrl_effect u r w) = roomUrl w" "apiError (roomUrl_effect u r w) = apiError w"
  "callObject (roomUrl_effect u r w) = callObject w" "appState (roomUrl_effect u r w) = appState w"
  "handlers (roomUrl_effect u r w) = handlers w" "mounted (roomUrl_effect u r w) = mounted w"
  by (simp_all add: roomUrl_effect_def Let_def)

lemma frame_commit [simp]:
  "roomUrl (commit u old w) = roomUrl w" "apiError (commit u old w) = apiError w"
  "callObject (commit u old w) = callObject w" "mounted (commit u old w) = mounted w"
  by (simp_all add: commit_def Let_def)

lemma frame_fold_handler:
  "href (fold (\<lambda>h. handler (fst h) p) hs w) = href w
   \<and> history (fold (\<lambda>h. handler (fst h) p) hs w) = history w
   \<and> roomUrl (fold (\<lambda>h. handler (fst h) p) hs w) = roomUrl w
   \<and> apiError (fold (\<lambda>h. handler (fst h) p) hs w) = apiError w
   \<and> callObject (fold (\<lambda>h. handler (fst h) p) hs w) = callObject w
   \<and> handlers (fold (\<lambda>h. handler (fst h) p) hs w) = handlers w
   \<and> mounted (fold (\<lambda>h. handler (fst h) p) hs w) = mounted w"
  by (induction hs arbitrary: w) simp_all

lemma frame_emit [simp]:
  "href (emit c ev p w) = href w" "history (emit c ev p w) = history w"
  "roomUrl (emit c ev p w) = roomUrl w" "apiError (emit c ev p w) = apiError w"
  "callObject (emit c ev p w) = callObject w" "handlers (emit c ev p w) = handlers w"
  "mounted (emit c ev p w) = mounted w"
  by (simp_all add: emit_def frame_fold_handler)

lemma href_handle [simp]: "href (handle e w) = href w"
  by (cases e) (simp_all add: callback_defs split: option.splits settled.splits)

lemma history_handle [simp]: "history (handle e w) = history w"
  by (cases e) (simp_all add: callback_defs split: option.splits settled.splits)

lemma handlers_handle: "e \<noteq> Unmount \<Longrightarrow> handlers (handle e w) = handlers w"
  by (cases e) (simp_all add: callback_defs split: option.splits settled.splits)

lemma mounted_handle: "e \<noteq> Unmount \<Longrightarrow> mounted (handle e w) = mounted w"
  by (cases e) (simp_all add: callback_defs split: option.splits settled.splits)

lemma commit_same:
  "callObject w = callObject old \<Longrightarrow> roomUrl w = roomUrl old \<Longrightarrow> commit u old w = w"
  by (simp add: commit_def)

lemma frame_discard_updates [simp]:
  "appState (discard_updates w w') = appState w" "roomUrl (discard_updates w w') = roomUrl w"
  "callObject (discard_updates w w') = callObject w" "apiError (discard_updates w w') = apiError w"
  "href (discard_updates w w') = href w'" "history (discard_updates w w') = history w'"
  "handlers (discard_updates w w') = handlers w'" "mounted (discard_updates w w') = mounted w'"
  "effects (discard_updates w w') = effects w'" "next_id (discard_updates w w') = next_id w'"
  by (simp_all add: discard_updates_def)

lemma step_mounted:
  "mounted w \<Longrightarrow> step u w e = (if e = Unmount then handle e w else commit u w (handle e w))"
  by (simp add: step_def)

lemma step_unmounted:
  "\<not> mounted w \<Longrightarrow>
   step u w e = (if user_event e \<or> e = Unmount then w else discard_updates w (handle e w))"
  by (simp add: step_def)

subsection \<open>The error flag is never reset\<close>

lemma apiError_handle: "apiError w \<Longrightarrow> apiError (handle e w)"
  by (cases e) (simp_all add: callback_defs split: option.splits settled.splits)

lemma apiError_step: "apiError w \<Longrightarrow> apiError (step u w e)"
  by (cases "mounted w") (simp_all add: step_mounted step_unmounted apiError_handle)

lemma apiError_run: "apiError w \<Longrightarrow> apiError (run u w es)"
  unfolding run_def by (induction es arbitrary: w) (simp_all add: apiError_step)

subsection \<open>The application state stays among the seven constants\<close>

lemma appState_handler: "appState w \<in> set STATES \<Longrightarrow> appState (handler c p w) \<in> set STATES"
  by (simp add: handler_eq)

lemma appState_fold_handler:
  "appState w \<in> set STATES \<Longrightarrow> appState (fold (\<lambda>h. handler (fst h) p) hs w) \<in> set STATES"
  by (induction hs arbitrary: w) (simp_all add: appState_handler)

lemma appState_handle: "appState w \<in> set STATES \<Longrightarrow> appState (handle e w) \<in> set STATES"
  by (cases e)
     (simp_all add: callback_defs emit_def appState_fold_handler
        split: option.splits settled.splits)

lemma appState_callObject_effect:
  "appState w \<in> set STATES \<Longrightarrow> appState (callObject_effect co w) \<in> set STATES"
  by (simp add: callObject_effect_def handleNewMeetingState_Some split: option.splits)

lemma appState_commit:
  "appState w \<in> set STATES \<Longrightarrow> appState (commit u old w) \<in> set STATES"
  by (simp add: commit_def Let_def appState_callObject_effect)

lemma appState_step: "appState w \<in> set STATES \<Longrightarrow> appState (step u w e) \<in> set STATES"
  by (cases "mounted w")
     (simp_all add: step_mounted step_unmounted appState_commit appState_handle)

lemma appState_mount: "appState (mount u h ms) \<in> set STATES"
  by (simp add: mount_def mount_effects_def mount_effect_def initial_world_def
      startHairCheck_def Let_def appState_commit appState_callObject_effect)

lemma appState_reachable: "reachable u w \<Longrightarrow> appState w \<in> set STATES"
  by (induction rule: reachable.induct) (simp_all add: appState_mount appState_step)

subsection \<open>The registered handlers follow the call object\<close>

lemma unsubscribe_all [simp]: "fold remove1 (map (Pair c) events) (map (Pair c) events) = []"
  by (simp add: events_def)

lemma handlers_commit:
  "handlers w = subscriptions (callObject old) \<Longrightarrow>
   handlers (commit u old w) = subscriptions (callObject w)"
  by (auto simp: commit_def Let_def subscriptions_def callObject_cleanup_def
        callObject_effect_def handleNewMeetingState_Some split: option.splits)

lemma subscribed_step: "subscribed w \<Longrightarrow> subscribed (step u w e)"
proof -
  assume s: "subscribed w"
  consider (turn) "mounted w" "e \<noteq> Unmount" | (unmount) "mounted w" "e = Unmount"
    | (after) "\<not> mounted w"
    by blast
  then show ?thesis
  proof cases
    case turn
    with s have "handlers (handle e w) = subscriptions (callObject w)"
      by (simp add: subscribed_def handlers_handle)
    then have "handlers (commit u w (handle e w)) = subscriptions (callObject (handle e w))"
      by (rule handlers_commit)
    with turn show ?thesis
      by (simp add: subscribed_def step_mounted mounted_handle)
  next
    case unmount
    with s show ?thesis
      by (auto simp: subscribed_def step_mounted callObject_cleanup_def subscriptions_def
            split: option.splits)
  next
    case after
    with s show ?thesis
      by (cases "e = Unmount")
         (simp_all add: subscribed_def step_unmounted handlers_handle mounted_handle)
  qed
qed

lemma subscribed_mount: "subscribed (mount u h ms)"
proof -
  let ?w = "mount_effects u (initial_world h ms)"
  have "handlers ?w = subscriptions (callObject (initial_world h ms))"
    by (simp add: mount_effects_def mount_effect_def initial_world_def startHairCheck_def
        Let_def subscriptions_def callObject_effect_def)
  then have "handlers (commit u (initial_world h ms) ?w) = subscriptions (callObject ?w)"
    by (rule handlers_commit)
  moreover have "mounted ?w"
    by (simp add: mount_effects_def mount_effect_def initial_world_def startHairCheck_def Let_def)
  ultimately show ?thesis
    by (simp add: subscribed_def mount_def)
qed

lemma subscribed_reachable: "reachable u w \<Longrightarrow> subscribed w"
  by (induction rule: reachable.induct) (simp_all add: subscribed_mount subscribed_step)

lemma emit_subscribed:
  "handlers w = map (Pair c) events \<Longrightarrow> ev \<in> set events \<Longrightarrow> emit c ev p w = handler c p w"
  by (auto simp: emit_def events_def)

lemma step_VendorEvent:
  assumes "reachable u w" "mounted w" "callObject w = Some c" "ev \<in> set events"
  shows "step u w (VendorEvent c ev p s) =
           handler c p (w\<lparr>meetingState := (meetingState w)(c := s)\<rparr>)"
proof -
  from assms have "handlers w = map (Pair c) events"
    using subscribed_reachable [of u w] by (simp add: subscribed_def subscriptions_def)
  with assms(4) have "handle (VendorEvent c ev p s) w =
      handler c p (w\<lparr>meetingState := (meetingState w)(c := s)\<rparr>)"
    by (simp add: emit_subscribed)
  with assms(2) show ?thesis
    by (simp add: step_mounted commit_same)
qed

lemma unmounted_step_Unmount: "\<not> mounted (step u w Unmount)"
  by (cases "mounted w") (simp_all add: step_mounted step_unmounted)

subsection \<open>A new call object is new\<close>

lemma created_before_iff:
  "created_before w = (\<forall>c. CreateCallObject c \<in> set (effects w) \<longrightarrow> c < next_id w)"
  by (auto simp: created_before_def list_all_iff split: effect.splits)

lemma created_handler: "created_before w \<Longrightarrow> created_before (handler c p w)"
  by (auto simp: created_before_iff handler_eq)

lemma created_fold_handler:
  "created_before w \<Longrightarrow> created_before (fold (\<lambda>h. handler (fst h) p) hs w)"
  by (induction hs arbitrary: w) (simp_all add: created_handler)

lemma created_handle: "created_before w \<Longrightarrow> created_before (handle e w)"
proof (cases e)
  case (VendorEvent c ev p s)
  assume "created_before w"
  then have "created_before (w\<lparr>meetingState := (meetingState w)(c := s)\<rparr>)"
    by (simp add: created_before_iff)
  with VendorEvent show ?thesis
    by (simp add: emit_def created_fold_handler)
qed (auto simp: created_before_iff callback_defs callObject_cleanup_def less_Suc_eq
      split: option.splits settled.splits)

lemma created_commit: "created_before w \<Longrightarrow> created_before (commit u old w)"
  by (auto simp: created_before_iff commit_def Let_def callObject_cleanup_def roomUrl_effect_def
        callObject_effect_def handleNewMeetingState_Some split: option.splits)

lemma created_discard_updates:
  "created_before w' \<Longrightarrow> created_before (discard_updates w w')"
  by (simp add: created_before_iff)

lemma created_step: "created_before w \<Longrightarrow> created_before (step u w e)"
proof -
  assume c: "created_before w"
  then have h: "created_before (handle e w)"
    by (rule created_handle)
  then have "created_before (commit u w (handle e w))"
    and "created_before (discard_updates w (handle e w))"
    by (rule created_commit, rule created_discard_updates)
  with c h show ?thesis
    unfolding step_def by presburger
qed

lemma created_mount: "created_before (mount u h ms)"
proof -
  have "created_before (mount_effects u (initial_world h ms))"
    by (auto simp: created_before_iff mount_effects_def mount_effect_def initial_world_def
          startHairCheck_def roomUrl_effect_def callObject_effect_def Let_def)
  then show ?thesis
    by (simp add: mount_def created_commit)
qed

lemma created_reachable: "reachable u w \<Longrightarrow> created_before w"
  by (induction rule: reachable.induct) (simp_all add: created_mount created_step)

lemma next_id_fresh: "reachable u w \<Longrightarrow> CreateCallObject (next_id w) \<notin> set (effects w)"
  using created_reachable [of u w] by (auto simp: created_before_iff)

subsection \<open>The example worlds\<close>

lemma reachable_home_world: "reachable example_utils home_world"
  unfolding home_world_def by (rule reach_mount)

lemma reachable_linked_world: "reachable example_utils linked_world"
  unfolding linked_world_def by (rule reach_mount)

lemma reachable_creating_world: "reachable example_utils creating_world"
  unfolding creating_world_def by (rule reach_step) (rule reachable_home_world)

lemma reachable_run: "reachable u w \<Longrightarrow> reachable u (run u w es)"
  unfolding run_def by (induction es arbitrary: w) (simp_all add: reach_step)

lemma linked_world_facts:
  "callObject linked_world = Some 0" "mounted linked_world"
  "appState linked_world = STATE_HAIRCHECK" "roomUrl linked_world = Str ''r''"
  by code_simp+

lemma broken_world_facts:
  "callObject broken_world = Some 0" "mounted broken_world" "appState broken_world = STATE_ERROR"
  by code_simp+

section \<open>The claims\<close>

subsection \<open>Leaving a call\<close>

text \<open>
  Claim C1. The leave action with a call object \<open>c\<close>. In the error state it calls
  \<open>destroy()\<close> and not \<open>leave()\<close>, and when \<open>destroy()\<close> is fulfilled the room URL and
  the call object are cleared and the state is idle. In any other state it sets the
  state to leaving and calls \<open>leave()\<close>; the room URL, the call object and the pending
  promises stay as they are, and the clearing happens later: when the handler sees
  the meeting state \<open>left-meeting\<close> it calls \<open>destroy()\<close>, and when that is fulfilled
  the room URL and the call object are cleared and the state is idle.
\<close>

theorem startLeavingCall_with_call_object:
  assumes "callObject w = Some c"
  shows "(appState w = STATE_ERROR \<longrightarrow>
            startLeavingCall w =
              Inr (w\<lparr>effects := effects w @ [Destroy c], pending := pending w @ [AwaitDestroy c]\<rparr>)
            \<and> (let w1 = uncaught w (startLeavingCall w);
                    w2 = handle (DestroySettled c True) w1
                in appState w1 = STATE_ERROR \<and> roomUrl w1 = roomUrl w \<and> callObject w1 = Some c
                   \<and> roomUrl w2 = Null \<and> callObject w2 = None \<and> appState w2 = STATE_IDLE))
         \<and> (appState w \<noteq> STATE_ERROR \<longrightarrow>
            startLeavingCall w =
              Inr (w\<lparr>appState := STATE_LEAVING, effects := effects w @ [Leave c]\<rparr>)
            \<and> (let w1 = uncaught w (startLeavingCall w);
                    w2 = handler c payload
                           (w1\<lparr>meetingState := (meetingState w1)(c := ''left-meeting'')\<rparr>);
                    w3 = handle (DestroySettled c True) w2
                in roomUrl w1 = roomUrl w \<and> callObject w1 = Some c \<and> pending w1 = pending w
                   \<and> effects w2 = effects w1 @ [Destroy c]
                   \<and> roomUrl w2 = roomUrl w \<and> callObject w2 = Some c
                   \<and> appState w2 = STATE_LEAVING
                   \<and> roomUrl w3 = Null \<and> callObject w3 = None \<and> appState w3 = STATE_IDLE))"
  using assms
  by (simp add: startLeavingCall_Some handler_eq settle_def cleanup_def Let_def)

theorem startLeavingCall_with_call_object_witness:
  "callObject broken_world = Some 0 \<and> appState broken_world = STATE_ERROR
   \<and> startLeavingCall broken_world =
       Inr (broken_world\<lparr>effects := effects broken_world @ [Destroy 0],
                          pending := pending broken_world @ [AwaitDestroy 0]\<rparr>)
   \<and> callObject linked_world = Some 0 \<and> appState linked_world \<noteq> STATE_ERROR
   \<and> startLeavingCall linked_world =
       Inr (linked_world\<lparr>appState := STATE_LEAVING, effects := effects linked_world @ [Leave 0]\<rparr>)"
  using startLeavingCall_with_call_object [of broken_world 0 "[]"]
    startLeavingCall_with_call_object [of linked_world 0 "[]"]
  by (simp add: broken_world_facts linked_world_facts)

subsection \<open>A failed room creation\<close>

text \<open>
  Claim C2. When the chain of \<open>createCall\<close> is rejected, the \<open>catch\<close> callback clears
  the room URL, sets the state to idle and sets the error flag. No turn of the event
  loop resets the flag: once set it is set after every further step, and after
  every sequence of steps.
\<close>

theorem createCall_failure_sets_flag:
  "(createCall_then r = Rejected \<longrightarrow>
      (let w' = snd (createCall_settle r w)
       in roomUrl w' = Null \<and> appState w' = STATE_IDLE \<and> apiError w'))
   \<and> (apiError w \<longrightarrow> apiError (step u w e) \<and> apiError (run u w es))"
  by (simp add: createCall_settle_def createCall_catch_def apiError_step apiError_run)

theorem createCall_failure_sets_flag_witness:
  "createCall_then RequestFailed = Rejected
   \<and> roomUrl (snd (createCall_settle RequestFailed creating_world)) = Null
   \<and> appState (snd (createCall_settle RequestFailed creating_world)) = STATE_IDLE
   \<and> apiError (snd (createCall_settle RequestFailed creating_world))
   \<and> apiError (run example_utils (snd (createCall_settle RequestFailed creating_world))
                 [ClickStart, VendorEvent 0 ''error'' [] ''error'', Unmount])"
  using createCall_failure_sets_flag [of RequestFailed creating_world]
    createCall_failure_sets_flag [of RequestFailed "snd (createCall_settle RequestFailed creating_world)"
      example_utils ClickStart "[ClickStart, VendorEvent 0 ''error'' [] ''error'', Unmount]"]
  by (simp add: Let_def)

text \<open>
  Claim C3. The promise of \<open>createCall\<close> is always fulfilled. When the chain was
  rejected it is fulfilled with \<open>undefined\<close>, and the \<open>then\<close> callback of the home
  screen calls \<open>startHairCheck\<close> with it: a call object is created and
  pre-authorised against \<open>undefined\<close>, and the state is hair-check although the
  error flag is set. The call object is a new one: in a reachable world no call
  object was created with its handle before.
\<close>

theorem createCall_never_rejects:
  "(\<exists>v. fst (createCall_settle r w) = Fulfilled v)
   \<and> (createCall_then r = Rejected \<longrightarrow>
        fst (createCall_settle r w) = Fulfilled Undefined
        \<and> (let w' = (case createCall_settle r w of (p, w1) \<Rightarrow> startDemo_then p w1)
           in callObject w' = Some (next_id w) \<and> appState w' = STATE_HAIRCHECK \<and> apiError w'
              \<and> roomUrl w' = Undefined
              \<and> effects w' = effects w @ [ConsoleError, CreateCallObject (next_id w),
                                             PreAuth (next_id w) Undefined]))
   \<and> (reachable u w \<longrightarrow> CreateCallObject (next_id w) \<notin> set (effects w))"
  by (cases r)
     (simp_all add: createCall_settle_def createCall_catch_def startHairCheck_def Let_def
        next_id_fresh)

theorem createCall_never_rejects_witness:
  "createCall_then RequestFailed = Rejected
   \<and> fst (createCall_settle RequestFailed creating_world) = Fulfilled Undefined
   \<and> appState (case createCall_settle RequestFailed creating_world of
                  (p, w1) \<Rightarrow> startDemo_then p w1) = STATE_HAIRCHECK
   \<and> apiError (case createCall_settle RequestFailed creating_world of
                  (p, w1) \<Rightarrow> startDemo_then p w1)
   \<and> reachable example_utils creating_world
   \<and> CreateCallObject (next_id creating_world) \<notin> set (effects creating_world)"
  using createCall_never_rejects [of RequestFailed creating_world example_utils]
  by (simp add: Let_def reachable_creating_world)

subsection \<open>Vendor events\<close>

text \<open>
  Claim C4, as stated, fails: on the linked page the hair check is shown with call
  object 0; the camera fails and the vendor emits \<open>camera-error\<close> while the meeting
  state is \<open>new\<close>. The handler runs and the state is still hair-check, not error.
\<close>

theorem camera_error_counterexample:
  "mounted linked_world \<and> callObject linked_world = Some 0
   \<and> (0, ''camera-error'') \<in> set (handlers linked_world)
   \<and> appState (step example_utils linked_world (VendorEvent 0 ''camera-error'' [] ''new''))
       = STATE_HAIRCHECK
   \<and> STATE_HAIRCHECK \<noteq> STATE_ERROR"
  by code_simp

text \<open>
  Claim C4, amended. When \<open>camera-error\<close> fires on the active call object, the
  handler reads \<open>meetingState()\<close>: the state becomes error when that is \<open>error\<close>,
  joined when it is \<open>joined-meeting\<close>, and otherwise stays what it was.
\<close>

theorem camera_error_follows_meeting_state:
  "reachable u w \<Longrightarrow> mounted w \<Longrightarrow> callObject w = Some c \<Longrightarrow>
   appState (step u w (VendorEvent c ''camera-error'' payload s)) =
     (if s = ''joined-meeting'' then STATE_JOINED
      else if s = ''error'' then STATE_ERROR
      else appState w)"
  by (simp add: step_VendorEvent events_def handler_eq)

theorem camera_error_follows_meeting_state_witness:
  "reachable example_utils linked_world \<and> mounted linked_world
   \<and> callObject linked_world = Some 0
   \<and> appState (step example_utils linked_world (VendorEvent 0 ''camera-error'' [] ''error''))
       = STATE_ERROR"
  using camera_error_follows_meeting_state [OF reachable_linked_world, of 0 "[]" "''error''"]
  by (simp add: linked_world_facts reachable_linked_world)

subsection \<open>Mounting on a page that names a room\<close>

text \<open>
  Claim C5, as stated, fails: on the linked page the first render has the state
  idle and shows the home screen; hair-check is the state of the second render.
\<close>

theorem mount_first_render_counterexample:
  "truthy (roomUrlFromPageUrl example_utils ''app?roomUrl=r'')
   \<and> map appState (mount_renders example_utils ''app?roomUrl=r'' new_meeting)
       = [STATE_IDLE, STATE_HAIRCHECK]
   \<and> map renderApp (mount_renders example_utils ''app?roomUrl=r'' new_meeting)
       = [HomeScreen, HairCheckView]"
  by code_simp

text \<open>
  Claim C5, amended. If the page address encodes a room URL at the initial mount,
  the first render has the state idle and shows the home screen; the mount effect
  then starts the hair check for that URL, and the second render has the state
  hair-check, the room URL of the address and the new call object, and shows the
  hair check. No render lies between the two. (A third render follows only if the
  new call object already reports \<open>joined-meeting\<close> or \<open>error\<close>.)
\<close>

theorem mount_with_room_in_address:
  assumes "truthy (roomUrlFromPageUrl u h)"
  shows "map appState (take 2 (mount_renders u h ms)) = [STATE_IDLE, STATE_HAIRCHECK]
     \<and> map renderApp (take 2 (mount_renders u h ms)) = [HomeScreen, HairCheckView]
     \<and> map roomUrl (take 2 (mount_renders u h ms)) = [Null, roomUrlFromPageUrl u h]
     \<and> map callObject (take 2 (mount_renders u h ms)) = [None, Some 0]
     \<and> map appState (mount_renders u h ms) =
         [STATE_IDLE, STATE_HAIRCHECK]
         @ (if ms 0 = ''joined-meeting'' then [STATE_JOINED]
            else if ms 0 = ''error'' then [STATE_ERROR] else [])
     \<and> appState (mount_effect u (initial_world h ms)) = STATE_HAIRCHECK"
proof -
  let ?w0 = "initial_world h ms"
  let ?w1 = "mount_effects u ?w0"
  have w0: "appState ?w0 = STATE_IDLE" "roomUrl ?w0 = Null" "callObject ?w0 = None"
    "\<not> apiError ?w0"
    by (simp_all add: initial_world_def)
  have w1: "appState ?w1 = STATE_HAIRCHECK" "roomUrl ?w1 = roomUrlFromPageUrl u h"
    "callObject ?w1 = Some 0" "\<not> apiError ?w1" "meetingState ?w1 = ms"
    using assms
    by (simp_all add: mount_effects_def mount_effect_def initial_world_def startHairCheck_def
        Let_def roomUrl_effect_def callObject_effect_def)
  have e: "appState (mount_effect u ?w0) = STATE_HAIRCHECK"
    using assms by (simp add: mount_effect_def initial_world_def startHairCheck_def Let_def)
  have w2: "appState (commit u ?w0 ?w1) =
      (if ms 0 = ''joined-meeting'' then STATE_JOINED
       else if ms 0 = ''error'' then STATE_ERROR else STATE_HAIRCHECK)"
    using assms w0 w1
    by (auto simp: commit_def Let_def roomUrl_effect_def callObject_effect_def
          callObject_cleanup_def handleNewMeetingState_Some)
  have r: "renderApp ?w0 = HomeScreen" "renderApp ?w1 = HairCheckView"
    using w0 w1 by (simp_all add: renderApp_def showHairCheck_def showCall_def)
  from w0 w1 w2 e r show ?thesis
    by (simp add: mount_renders_def react_state_def Let_def STATE_neq [THEN not_sym])
qed

theorem mount_with_room_in_address_witness:
  "truthy (roomUrlFromPageUrl example_utils ''app?roomUrl=r'')
   \<and> map appState (take 2 (mount_renders example_utils ''app?roomUrl=r'' joined_meeting))
       = [STATE_IDLE, STATE_HAIRCHECK]
   \<and> map renderApp (take 2 (mount_renders example_utils ''app?roomUrl=r'' joined_meeting))
       = [HomeScreen, HairCheckView]
   \<and> map appState (mount_renders example_utils ''app?roomUrl=r'' joined_meeting)
       = [STATE_IDLE, STATE_HAIRCHECK, STATE_JOINED]"
proof -
  have a: "truthy (roomUrlFromPageUrl example_utils ''app?roomUrl=r'')"
    by (simp add: example_utils_def)
  from mount_with_room_in_address [of example_utils "''app?roomUrl=r''" joined_meeting] a
  show ?thesis
    by (simp add: joined_meeting_def)
qed

subsection \<open>Cleaning up after a call\<close>

text \<open>
  The first half of claim C6 holds: when the handler sees \<open>left-meeting\<close> it only
  calls \<open>destroy()\<close>; the room URL, the call object and the state are left as they
  are until that promise is fulfilled, and its continuation then clears the room
  URL and the call object and sets the state to idle.
\<close>

lemma left_meeting_destroys_before_idle:
  assumes "meetingState w c = ''left-meeting''"
  shows "handler c payload w =
           w\<lparr>effects := effects w @ [Destroy c], pending := pending w @ [AwaitDestroy c]\<rparr>
     \<and> (let w' = handle (DestroySettled c True) (handler c payload w)
        in roomUrl w' = Null \<and> callObject w' = None \<and> appState w' = STATE_IDLE
           \<and> Destroy c \<in> set (effects w'))"
  using assms by (simp add: handler_eq settle_def cleanup_def Let_def)

text \<open>
  Claim C6, second half: the state is to return to idle only after the active call
  object has been destroyed. The code breaks this on \<open>stale_cleanup_trace\<close>: call
  object 1 is active in the hair check and \<open>destroy()\<close> was never called on it; the
  pending \<open>destroy()\<close> of call object 0 is fulfilled, and its continuation clears
  the reference to call object 1 and sets the state to idle. Call object 1 is not
  destroyed then either, and nothing refers to it any more.
\<close>

theorem stale_cleanup_returns_to_idle:
  "reachable example_utils second_call_world
   \<and> callObject second_call_world = Some 1
   \<and> appState second_call_world = STATE_HAIRCHECK
   \<and> AwaitDestroy 0 \<in> set (pending second_call_world)
   \<and> Destroy 1 \<notin> set (effects second_call_world)
   \<and> appState (step example_utils second_call_world (DestroySettled 0 True)) = STATE_IDLE
   \<and> callObject (step example_utils second_call_world (DestroySettled 0 True)) = None
   \<and> Destroy 1 \<notin> set (effects (step example_utils second_call_world (DestroySettled 0 True)))"
proof -
  have "reachable example_utils second_call_world"
    unfolding second_call_world_def by (rule reachable_run) (rule reachable_home_world)
  moreover have "callObject second_call_world = Some 1
    \<and> appState second_call_world = STATE_HAIRCHECK
    \<and> AwaitDestroy 0 \<in> set (pending second_call_world)
    \<and> Destroy 1 \<notin> set (effects second_call_world)"
    by code_simp
  moreover have
    "appState (step example_utils second_call_world (DestroySettled 0 True)) = STATE_IDLE
     \<and> callObject (step example_utils second_call_world (DestroySettled 0 True)) = None
     \<and> Destroy 1 \<notin> set (effects (step example_utils second_call_world (DestroySettled 0 True)))"
    by code_simp
  ultimately show ?thesis by simp
qed

subsection \<open>The subscriptions\<close>

text \<open>
  Claim C7. In every reachable world the registered handlers are exactly the four
  of the current call object while the component is mounted, and none otherwise.
  When one of the four events fires on the current call object, the turn does what
  \<open>meetingState()\<close> says, whichever of the four events it was and whatever its
  payload. After a turn that changes the call object no handler is left on the
  old one, and after the unmount no handler is left at all.
\<close>

theorem subscription_discipline:
  assumes "reachable u w"
  shows "handlers w = (if mounted w then subscriptions (callObject w) else [])
     \<and> subscriptions (Some c) =
         [(c, ''joined-meeting''), (c, ''left-meeting''), (c, ''error''), (c, ''camera-error'')]
     \<and> (mounted w \<and> callObject w = Some c \<and> ev \<in> set events \<longrightarrow>
          step u w (VendorEvent c ev payload s) =
            (let w' = w\<lparr>meetingState := (meetingState w)(c := s)\<rparr>
             in if s = ''joined-meeting'' then w'\<lparr>appState := STATE_JOINED\<rparr>
                else if s = ''left-meeting''
                  then w'\<lparr>effects := effects w' @ [Destroy c],
                          pending := pending w' @ [AwaitDestroy c]\<rparr>
                else if s = ''error'' then w'\<lparr>appState := STATE_ERROR\<rparr>
                else w'))
     \<and> (callObject w = Some c \<and> callObject (step u w e) \<noteq> Some c \<longrightarrow>
          (\<forall>ev'. (c, ev') \<notin> set (handlers (step u w e))))
     \<and> handlers (step u w Unmount) = []"
proof -
  have inv: "subscribed (step u w e')" for e'
    using assms by (simp add: subscribed_reachable subscribed_step)
  have 1: "handlers w = (if mounted w then subscriptions (callObject w) else [])"
    using subscribed_reachable [OF assms] by (simp add: subscribed_def)
  have 2: "subscriptions (Some c) =
      [(c, ''joined-meeting''), (c, ''left-meeting''), (c, ''error''), (c, ''camera-error'')]"
    by (simp add: subscriptions_def events_def)
  have 3: "step u w (VendorEvent c ev payload s) =
            (let w' = w\<lparr>meetingState := (meetingState w)(c := s)\<rparr>
             in if s = ''joined-meeting'' then w'\<lparr>appState := STATE_JOINED\<rparr>
                else if s = ''left-meeting''
                  then w'\<lparr>effects := effects w' @ [Destroy c],
                          pending := pending w' @ [AwaitDestroy c]\<rparr>
                else if s = ''error'' then w'\<lparr>appState := STATE_ERROR\<rparr>
                else w')"
    if "mounted w" "callObject w = Some c" "ev \<in> set events"
    using step_VendorEvent [OF assms that] by (simp add: handler_eq Let_def)
  have 4: "(c, ev') \<notin> set (handlers (step u w e))"
    if "callObject (step u w e) \<noteq> Some c" for ev'
    using inv [of e] that
    by (auto simp: subscribed_def subscriptions_def split: option.splits if_splits)
  have 5: "handlers (step u w Unmount) = []"
    using inv [of Unmount] by (simp add: subscribed_def unmounted_step_Unmount)
  from 1 2 3 4 5 show ?thesis by blast
qed

theorem subscription_discipline_witness:
  "reachable example_utils linked_world \<and> mounted linked_world
   \<and> callObject linked_world = Some 0 \<and> ''camera-error'' \<in> set events
   \<and> handlers linked_world =
       [(0, ''joined-meeting''), (0, ''left-meeting''), (0, ''error''), (0, ''camera-error'')]
   \<and> step example_utils linked_world (VendorEvent 0 ''camera-error'' ''payload'' ''error'')
       = linked_world\<lparr>meetingState := (meetingState linked_world)(0 := ''error''),
                       appState := STATE_ERROR\<rparr>
   \<and> handlers (step example_utils linked_world Unmount) = []"
proof -
  have ev: "''camera-error'' \<in> set events"
    by (simp add: events_def)
  from subscription_discipline [OF reachable_linked_world,
      of 0 "''camera-error''" "''payload''" "''error''" Unmount] ev
  show ?thesis
    by (simp add: linked_world_facts reachable_linked_world Let_def)
qed

subsection \<open>The application state\<close>

text \<open>
  Claim C8. The state of the first render, the state after every sequence of
  events on the mounted component, and so the state of every reachable world, is
  one of the seven state constants, which are pairwise different.
\<close>

theorem appState_always_enumerated:
  "appState (initial_world h ms) \<in> set STATES
   \<and> appState (run u (mount u h ms) es) \<in> set STATES
   \<and> (reachable u w \<longrightarrow> appState w \<in> set STATES)
   \<and> distinct STATES \<and> length STATES = 7"
proof -
  have "reachable u (run u (mount u h ms) es)"
    by (rule reachable_run) (rule reach_mount)
  then have "appState (run u (mount u h ms) es) \<in> set STATES"
    by (rule appState_reachable)
  moreover have "length STATES = 7"
    by (simp add: STATES_def)
  ultimately show ?thesis
    by (simp add: appState_reachable distinct_STATES initial_world_def)
qed

theorem appState_always_enumerated_witness:
  "reachable example_utils broken_world \<and> appState broken_world \<in> set STATES
   \<and> appState broken_world = STATE_ERROR"
proof -
  have r: "reachable example_utils broken_world"
    unfolding broken_world_def by (rule reach_step) (rule reachable_linked_world)
  from appState_always_enumerated [of "[]" new_meeting example_utils "[]" broken_world] r
  show ?thesis by (simp add: broken_world_facts)
qed

subsection \<open>The page address\<close>

text \<open>
  Claim C9. A render after which the room URL differs from that of the render
  before passes the page URL computed from the new room URL to
  \<open>history.replaceState\<close>, once, and that is then the address; unless the computed
  URL is the current address, in which case address and history stay as they are.
  This holds for every render (\<open>commit\<close>) and so for every turn of the event loop;
  a turn that leaves the room URL alone leaves address and history alone.
\<close>

theorem roomUrl_change_rewrites_address:
  "(roomUrl w' \<noteq> roomUrl w \<longrightarrow>
      (let pageUrl = pageUrlFromRoomUrl u (href w') (roomUrl w')
       in if pageUrl = href w'
          then href (commit u w w') = href w' \<and> history (commit u w w') = history w'
          else href (commit u w w') = pageUrl \<and> history (commit u w w') = history w' @ [pageUrl]))
   \<and> (roomUrl (step u w e) \<noteq> roomUrl w \<longrightarrow>
      (let pageUrl = pageUrlFromRoomUrl u (href w) (roomUrl (step u w e))
       in if pageUrl = href w
          then href (step u w e) = href w \<and> history (step u w e) = history w
          else href (step u w e) = pageUrl \<and> history (step u w e) = history w @ [pageUrl]))
   \<and> (roomUrl (step u w e) = roomUrl w \<longrightarrow>
        href (step u w e) = href w \<and> history (step u w e) = history w)"
  by (cases "mounted w")
     (simp_all add: step_mounted step_unmounted commit_def roomUrl_effect_def Let_def)

theorem roomUrl_change_rewrites_address_witness:
  "roomUrl (step example_utils creating_world (CreateRoomSettled (RoomCreated (Str ''u''))))
     \<noteq> roomUrl creating_world
   \<and> href (step example_utils creating_world (CreateRoomSettled (RoomCreated (Str ''u''))))
       = ''app?roomUrl=u''
   \<and> history (step example_utils creating_world (CreateRoomSettled (RoomCreated (Str ''u''))))
       = history creating_world @ [''app?roomUrl=u'']
   \<and> roomUrl (step example_utils creating_world (CreateRoomSettled RequestFailed))
       \<noteq> roomUrl creating_world
   \<and> history (step example_utils creating_world (CreateRoomSettled RequestFailed))
       = history creating_world"
proof -
  have a: "roomUrl creating_world = Null" "href creating_world = ''app''"
    by code_simp+
  have b: "roomUrl (step example_utils creating_world
             (CreateRoomSettled (RoomCreated (Str ''u'')))) = Str ''u''"
    by code_simp
  have c: "roomUrl (step example_utils creating_world (CreateRoomSettled RequestFailed))
             = Undefined"
    by code_simp
  have d: "pageUrlFromRoomUrl example_utils ''app'' (Str ''u'') = ''app?roomUrl=u''"
    "pageUrlFromRoomUrl example_utils ''app'' Undefined = ''app''"
    by (simp_all add: example_utils_def)
  from roomUrl_change_rewrites_address [of creating_world creating_world example_utils
      "CreateRoomSettled (RoomCreated (Str ''u''))"]
    roomUrl_change_rewrites_address [of creating_world creating_world example_utils
      "CreateRoomSettled RequestFailed"]
  show ?thesis
    by (simp add: a b c d Let_def)
qed

subsection \<open>The guards of join and leave\<close>

text \<open>
  Claim C10. \<open>joinCall\<close> returns the world as it is, with no call to the SDK, when
  the call object or the room URL is \<open>null\<close> (or the room URL is falsy otherwise);
  with a call object and a truthy room URL it calls \<open>join\<close> and changes nothing
  else. \<open>startLeavingCall\<close> returns the world as it is when the call object is
  \<open>null\<close>. Neither of them ever throws the error of a method call on \<open>null\<close>.
\<close>

theorem joinCall_startLeavingCall_guarded:
  "(callObject w = None \<or> roomUrl w = Null \<or> \<not> truthy (roomUrl w) \<longrightarrow> joinCall w = Inr w)
   \<and> (callObject w = Some c \<and> truthy (roomUrl w) \<longrightarrow>
        joinCall w = Inr (w\<lparr>effects := effects w @ [Join c (roomUrl w)]\<rparr>))
   \<and> (callObject w = None \<longrightarrow> startLeavingCall w = Inr w)
   \<and> (\<exists>w'. joinCall w = Inr w') \<and> (\<exists>w'. startLeavingCall w = Inr w')"
  by (cases "callObject w") (auto simp: joinCall_def startLeavingCall_def destroy_then_def)

theorem joinCall_startLeavingCall_guarded_witness:
  "callObject home_world = None \<and> roomUrl home_world = Null
   \<and> joinCall home_world = Inr home_world \<and> startLeavingCall home_world = Inr home_world"
proof -
  have "callObject home_world = None" "roomUrl home_world = Null"
    by code_simp+
  with joinCall_startLeavingCall_guarded [of home_world 0] show ?thesis
    by simp
qed

end
